theory Spec2Isabelle
  imports Complex_Main "HOL-Library.Word" "HOL-Library.Log_Nat"
begin

unbundle bit_operations_syntax

section \<open>Number values\<close>

text \<open>
  The program computes with JavaScript Numbers, that is IEEE 754 binary64 values with
  round-to-nearest, ties-to-even. A finite Number is modelled by the rational it denotes;
  every arithmetic operation computes the exact rational result and rounds it with
  \<open>fl\<close>. The two zeros are identified: they compare equal, both are falsy, and the
  only divisor of this program that can be zero is a square, hence never the negative zero.
\<close>

text \<open>Nearest integer, a tie going to the even neighbour.\<close>

definition rne :: "rat \<Rightarrow> int" where
  "rne x = (let f = \<lfloor>x\<rfloor>; d = x - of_int f in
     if d < 1 / 2 then f else if 1 / 2 < d then f + 1 else if even f then f else f + 1)"

text \<open>The binary exponent of a non-zero rational: \<open>2 powi expo x \<le> \<bar>x\<bar> < 2 powi (expo x + 1)\<close>.\<close>

definition expo :: "rat \<Rightarrow> int" where
  "expo x = (if 1 \<le> \<bar>x\<bar> then bitlen \<lfloor>\<bar>x\<bar>\<rfloor> - 1 else - bitlen (\<lceil>1 / \<bar>x\<bar>\<rceil> - 1))"

text \<open>
  Rounding to 53 significant bits; below \<open>2 powi (- 1022)\<close> the spacing stays at
  \<open>2 powi (- 1074)\<close> (subnormal numbers).
\<close>

definition fl :: "rat \<Rightarrow> rat" where
  "fl x = (let u = 2 powi (max (expo x) (- 1022) - 52) in of_int (rne (x / u)) * u)"

datatype number = Fin rat | PosInf | NegInf | NaN

text \<open>
  The Number nearest to an exact result. The largest binary exponent of a double is 1023:
  a result that rounds, in an unbounded exponent range, to a value with a larger exponent
  overflows to an infinity.
\<close>

definition to_number :: "rat \<Rightarrow> number" where
  "to_number x = (let y = fl x in
     if expo y < 1024 then Fin y else if 0 < y then PosInf else NegInf)"

text \<open>A decimal literal of the source, such as \<open>0.005\<close>, denotes the nearest double.\<close>

definition lit :: "rat \<Rightarrow> number" where
  "lit x = to_number x"

fun js_mul :: "number \<Rightarrow> number \<Rightarrow> number" where
  "js_mul (Fin a) (Fin b) = to_number (a * b)"
| "js_mul NaN _ = NaN"
| "js_mul _ NaN = NaN"
| "js_mul (Fin a) PosInf = (if a = 0 then NaN else if 0 < a then PosInf else NegInf)"
| "js_mul (Fin a) NegInf = (if a = 0 then NaN else if 0 < a then NegInf else PosInf)"
| "js_mul PosInf (Fin b) = (if b = 0 then NaN else if 0 < b then PosInf else NegInf)"
| "js_mul NegInf (Fin b) = (if b = 0 then NaN else if 0 < b then NegInf else PosInf)"
| "js_mul PosInf PosInf = PosInf"
| "js_mul PosInf NegInf = NegInf"
| "js_mul NegInf PosInf = NegInf"
| "js_mul NegInf NegInf = PosInf"

fun js_div :: "number \<Rightarrow> number \<Rightarrow> number" where
  "js_div (Fin a) (Fin b) =
     (if b = 0 then (if a = 0 then NaN else if 0 < a then PosInf else NegInf)
      else to_number (a / b))"
| "js_div NaN _ = NaN"
| "js_div _ NaN = NaN"
| "js_div (Fin a) PosInf = Fin 0"
| "js_div (Fin a) NegInf = Fin 0"
| "js_div PosInf (Fin b) = (if 0 \<le> b then PosInf else NegInf)"
| "js_div NegInf (Fin b) = (if 0 \<le> b then NegInf else PosInf)"
| "js_div PosInf PosInf = NaN"
| "js_div PosInf NegInf = NaN"
| "js_div NegInf PosInf = NaN"
| "js_div NegInf NegInf = NaN"

text \<open>
  \<open>Math.round\<close>: the integral Number closest to the argument, a tie going towards
  plus infinity. The operation is exact.
\<close>

fun Math_round :: "number \<Rightarrow> number" where
  "Math_round (Fin x) = Fin (of_int \<lfloor>x + 1 / 2\<rfloor>)"
| "Math_round PosInf = PosInf"
| "Math_round NegInf = NegInf"
| "Math_round NaN = NaN"

text \<open>The comparison \<open>a < b\<close>; it is false as soon as one side is NaN.\<close>

fun js_lt :: "number \<Rightarrow> number \<Rightarrow> bool" where
  "js_lt (Fin a) (Fin b) = (a < b)"
| "js_lt NaN _ = False"
| "js_lt _ NaN = False"
| "js_lt (Fin a) PosInf = True"
| "js_lt (Fin a) NegInf = False"
| "js_lt PosInf _ = False"
| "js_lt NegInf (Fin b) = True"
| "js_lt NegInf PosInf = True"
| "js_lt NegInf NegInf = False"

text \<open>An argument that may be absent (\<open>undefined\<close> or \<open>null\<close>) or a Number.\<close>

datatype jsval = Undefined | Null | Number number

text \<open>The logical not \<open>!v\<close>: true on the falsy values.\<close>

fun js_not :: "jsval \<Rightarrow> bool" where
  "js_not Undefined = True"
| "js_not Null = True"
| "js_not (Number (Fin x)) = (x = 0)"
| "js_not (Number NaN) = True"
| "js_not (Number PosInf) = False"
| "js_not (Number NegInf) = False"

text \<open>The conversion applied to the operand of an arithmetic operator.\<close>

fun ToNumber :: "jsval \<Rightarrow> number" where
  "ToNumber Undefined = NaN"
| "ToNumber Null = Fin 0"
| "ToNumber (Number n) = n"

section \<open>Frames and the decoder\<close>

datatype exn =
  RangeError | NotFoundError | NetworkError | SecurityError | InvalidStateError | NotSupportedError

text \<open>A \<open>DataView\<close> is its bytes; an access outside of them throws \<open>RangeError\<close>.\<close>

type_synonym dataview = "8 word list"

definition byteLength :: "dataview \<Rightarrow> nat" where
  "byteLength data = length data"

definition getUint8 :: "dataview \<Rightarrow> nat \<Rightarrow> exn + nat" where
  "getUint8 data byteOffset =
     (if byteOffset + 1 \<le> length data then Inr (unat (data ! byteOffset)) else Inl RangeError)"

definition getUint16 :: "dataview \<Rightarrow> nat \<Rightarrow> bool \<Rightarrow> exn + nat" where
  "getUint16 data byteOffset littleEndian =
     (if byteOffset + 2 \<le> length data
      then Inr (if littleEndian
                then unat (data ! byteOffset) + 256 * unat (data ! (byteOffset + 1))
                else 256 * unat (data ! byteOffset) + unat (data ! (byteOffset + 1)))
      else Inl RangeError)"

record measurement =
  weight :: number
  isStable :: bool
  unit :: string

text \<open>\<open>parseScaleData\<close>; \<open>Inr None\<close> is the returned \<open>null\<close>, \<open>Inl\<close> a thrown exception.\<close>

definition parseScaleData :: "dataview \<Rightarrow> exn + measurement option" where
  "parseScaleData data =
     (if byteLength data < 3 then Inr None
      else (case getUint8 data 0 of
        Inl e \<Rightarrow> Inl e
      | Inr flags \<Rightarrow>
          (let isLbs = (flags AND 1 \<noteq> 0) in
           (case getUint16 data 1 True of
              Inl e \<Rightarrow> Inl e
            | Inr rawWeight \<Rightarrow>
                (let weight0 = js_mul (Fin (of_nat rawWeight)) (lit (5 / 1000));
                     weight1 = (if isLbs then js_mul (Fin (of_nat rawWeight)) (lit (1 / 100))
                                else weight0)
                 in Inr (Some \<lparr>weight = js_div (Math_round (js_mul weight1 (Fin 100))) (Fin 100),
                                isStable = True,
                                unit = (if isLbs then ''lbs'' else ''kg'')\<rparr>))))))"

section \<open>Metrics\<close>

text \<open>\<open>calculateBMI(weight, height)\<close>, the parameters written \<open>w\<close> and \<open>h\<close>.\<close>

definition calculateBMI :: "jsval \<Rightarrow> jsval \<Rightarrow> number" where
  "calculateBMI w h =
     (if js_not w \<or> js_not h then Fin 0
      else let heightInMeters = js_div (ToNumber h) (Fin 100);
               bmi = js_div (ToNumber w) (js_mul heightInMeters heightInMeters)
           in js_div (Math_round (js_mul bmi (Fin 10))) (Fin 10))"

record bmi_category =
  label :: string
  color :: string
  status :: string

text \<open>The four results; the accented a of the labels is the code unit \<open>0xE1\<close>.\<close>

definition Podvaha :: bmi_category where
  "Podvaha = \<lparr>label = ''Podv'' @ [CHR 0xE1] @ ''ha'', color = ''#60a5fa'', status = ''blue''\<rparr>"

definition Normalna :: bmi_category where
  "Normalna = \<lparr>label = ''Norm'' @ [CHR 0xE1] @ ''lna'', color = ''#4ade80'', status = ''green''\<rparr>"

definition Nadvaha :: bmi_category where
  "Nadvaha = \<lparr>label = ''Nadv'' @ [CHR 0xE1] @ ''ha'', color = ''#fb923c'', status = ''orange''\<rparr>"

definition Obezita :: bmi_category where
  "Obezita = \<lparr>label = ''Obezita'', color = ''#f87171'', status = ''red''\<rparr>"

definition getBMICategory :: "number \<Rightarrow> bmi_category" where
  "getBMICategory bmi =
     (if js_lt bmi (Fin (185 / 10)) then Podvaha
      else if js_lt bmi (Fin 25) then Normalna
      else if js_lt bmi (Fin 30) then Nadvaha
      else Obezita)"

section \<open>The GATT connection\<close>

type_synonym uuid = nat

definition WEIGHT_SCALE_SERVICE_UUID :: uuid where
  "WEIGHT_SCALE_SERVICE_UUID = 0x181d"

definition BODY_COMPOSITION_SERVICE_UUID :: uuid where
  "BODY_COMPOSITION_SERVICE_UUID = 0x181b"

definition WEIGHT_MEASUREMENT_CHAR_UUID :: uuid where
  "WEIGHT_MEASUREMENT_CHAR_UUID = 0x2a9d"

definition BODY_COMP_MEASUREMENT_CHAR_UUID :: uuid where
  "BODY_COMP_MEASUREMENT_CHAR_UUID = 0x2a9c"

text \<open>
  The platform is a parameter. A \<open>device\<close> fixes how each promise of the Web Bluetooth
  interface settles: \<open>None\<close> when it is fulfilled, \<open>Some e\<close> when it is rejected
  with \<open>e\<close>. A service is named by its identifier, a characteristic by the
  identifiers of its service and of itself.
\<close>

record device =
  connect_rejects :: "exn option"
  service_rejects :: "uuid \<Rightarrow> exn option"
  characteristic_rejects :: "uuid \<Rightarrow> uuid \<Rightarrow> exn option"
  start_rejects :: "uuid \<Rightarrow> uuid \<Rightarrow> exn option"
  stop_rejects :: "uuid \<Rightarrow> uuid \<Rightarrow> exn option"

type_synonym characteristic = "uuid \<times> uuid"

datatype call =
  Connect
  | GetPrimaryService uuid
  | GetCharacteristic uuid uuid
  | StartNotifications characteristic
  | AddEventListener characteristic
  | StopNotifications characteristic
  | Disconnect

text \<open>
  The state of the GATT server of the device: whether the transport connection is open,
  the characteristics that notify, those with a registered listener, and the platform
  calls issued so far, oldest first. With it goes what the runtime reports about the
  program: the reasons of the rejected promises that nothing awaited and that had no
  handler (the \<open>unhandledrejection\<close> errors), oldest first.
\<close>

record gatt =
  connected :: bool
  notifying :: "characteristic list"
  listeners :: "characteristic list"
  calls :: "call list"
  unhandled_rejections :: "exn list"

definition issue :: "call \<Rightarrow> gatt \<Rightarrow> gatt" where
  "issue c s = s\<lparr>calls := calls s @ [c]\<rparr>"

definition gatt_connect :: "device \<Rightarrow> gatt \<Rightarrow> (exn + unit) \<times> gatt" where
  "gatt_connect dev s =
     (case connect_rejects dev of
        Some e \<Rightarrow> (Inl e, issue Connect s)
      | None \<Rightarrow> (Inr (), (issue Connect s)\<lparr>connected := True\<rparr>))"

definition getPrimaryService :: "device \<Rightarrow> uuid \<Rightarrow> gatt \<Rightarrow> (exn + uuid) \<times> gatt" where
  "getPrimaryService dev service s =
     (case service_rejects dev service of
        Some e \<Rightarrow> (Inl e, issue (GetPrimaryService service) s)
      | None \<Rightarrow> (Inr service, issue (GetPrimaryService service) s))"

definition getCharacteristic ::
    "device \<Rightarrow> uuid \<Rightarrow> uuid \<Rightarrow> gatt \<Rightarrow> (exn + characteristic) \<times> gatt" where
  "getCharacteristic dev service charUUID s =
     (case characteristic_rejects dev service charUUID of
        Some e \<Rightarrow> (Inl e, issue (GetCharacteristic service charUUID) s)
      | None \<Rightarrow> (Inr (service, charUUID), issue (GetCharacteristic service charUUID) s))"

definition startNotifications ::
    "device \<Rightarrow> characteristic \<Rightarrow> gatt \<Rightarrow> (exn + unit) \<times> gatt" where
  "startNotifications dev c s =
     (case start_rejects dev (fst c) (snd c) of
        Some e \<Rightarrow> (Inl e, issue (StartNotifications c) s)
      | None \<Rightarrow> (Inr (), (issue (StartNotifications c) s)\<lparr>notifying := c # notifying s\<rparr>))"

definition addEventListener :: "characteristic \<Rightarrow> gatt \<Rightarrow> gatt" where
  "addEventListener c s = (issue (AddEventListener c) s)\<lparr>listeners := c # listeners s\<rparr>"

text \<open>
  \<open>stopNotifications\<close> is the one promise that the program may request on a closed
  connection, in a second teardown. There the platform rejects it with
  \<open>NetworkError\<close>, whatever the device; on an open connection the device decides.
\<close>

definition stopNotifications ::
    "device \<Rightarrow> characteristic \<Rightarrow> gatt \<Rightarrow> (exn + unit) \<times> gatt" where
  "stopNotifications dev c s =
     (if \<not> connected s then (Inl NetworkError, issue (StopNotifications c) s)
      else (case stop_rejects dev (fst c) (snd c) of
        Some e \<Rightarrow> (Inl e, issue (StopNotifications c) s)
      | None \<Rightarrow> (Inr (), (issue (StopNotifications c) s)\<lparr>notifying := removeAll c (notifying s)\<rparr>)))"

text \<open>A promise that was rejected with nothing awaiting it and no handler attached.\<close>

definition report_unhandled :: "exn \<Rightarrow> gatt \<Rightarrow> gatt" where
  "report_unhandled e s = s\<lparr>unhandled_rejections := unhandled_rejections s @ [e]\<rparr>"

text \<open>
  \<open>disconnect\<close> is synchronous and does not throw; a closed connection carries no
  notifications, and closing a closed connection changes nothing but the log.
\<close>

definition disconnect :: "gatt \<Rightarrow> gatt" where
  "disconnect s = (issue Disconnect s)\<lparr>connected := False, notifying := []\<rparr>"

text \<open>What the function returned by \<open>subscribeToWeight\<close> has captured.\<close>

record subscription =
  sub_characteristic :: characteristic

text \<open>The \<open>try\<close>/\<open>catch\<close> that picks the service and the identifier of its characteristic.\<close>

definition resolve_service :: "device \<Rightarrow> gatt \<Rightarrow> (exn + uuid \<times> uuid) \<times> gatt" where
  "resolve_service dev s =
     (case getPrimaryService dev WEIGHT_SCALE_SERVICE_UUID s of
        (Inr service, s1) \<Rightarrow> (Inr (service, WEIGHT_MEASUREMENT_CHAR_UUID), s1)
      | (Inl e, s1) \<Rightarrow>
          (case getPrimaryService dev BODY_COMPOSITION_SERVICE_UUID s1 of
             (Inr service, s2) \<Rightarrow> (Inr (service, BODY_COMP_MEASUREMENT_CHAR_UUID), s2)
           | (Inl e2, s2) \<Rightarrow> (Inl e2, s2)))"

definition subscribeToWeight :: "device \<Rightarrow> gatt \<Rightarrow> (exn + subscription) \<times> gatt" where
  "subscribeToWeight dev s =
     (case gatt_connect dev s of
        (Inl e, s1) \<Rightarrow> (Inl e, s1)
      | (Inr server, s1) \<Rightarrow>
          (case resolve_service dev s1 of
             (Inl e, s2) \<Rightarrow> (Inl e, s2)
           | (Inr (service, charUUID), s2) \<Rightarrow>
               (case getCharacteristic dev service charUUID s2 of
                  (Inl e, s3) \<Rightarrow> (Inl e, s3)
                | (Inr c, s3) \<Rightarrow>
                    (case startNotifications dev c s3 of
                       (Inl e, s4) \<Rightarrow> (Inl e, s4)
                     | (Inr started, s4) \<Rightarrow>
                         (Inr \<lparr>sub_characteristic = c\<rparr>, addEventListener c s4)))))"


section \<open>Rounding as the specification words it\<close>

text \<open>
  Rounding an exact value to two decimal places, a value halfway between two hundredths
  going away from zero. This follows the wording of the specification, not the source.
\<close>

definition round_half_away_hundredths :: "rat \<Rightarrow> rat" where
  "round_half_away_hundredths x = sgn x * of_int \<lfloor>\<bar>x\<bar> * 100 + 1 / 2\<rfloor> / 100"

section \<open>Example devices\<close>

text \<open>A closed connection on which nothing has happened yet.\<close>

definition fresh_gatt :: gatt where
  "fresh_gatt =
     \<lparr>connected = False, notifying = [], listeners = [], calls = [], unhandled_rejections = []\<rparr>"

text \<open>A peripheral that accepts the connection and offers neither service.\<close>

definition unsupported_device :: device where
  "unsupported_device =
     \<lparr>connect_rejects = None,
      service_rejects = (\<lambda>service. Some NotFoundError),
      characteristic_rejects = (\<lambda>service c. Some NotFoundError),
      start_rejects = (\<lambda>service c. None),
      stop_rejects = (\<lambda>service c. None)\<rparr>"

text \<open>A scale that offers the Body Composition service only.\<close>

definition body_composition_scale :: device where
  "body_composition_scale =
     \<lparr>connect_rejects = None,
      service_rejects =
        (\<lambda>service. if service = BODY_COMPOSITION_SERVICE_UUID then None else Some NotFoundError),
      characteristic_rejects = (\<lambda>service c. None),
      start_rejects = (\<lambda>service c. None),
      stop_rejects = (\<lambda>service c. None)\<rparr>"

section \<open>Properties of the rounding\<close>

lemma rne_error: "\<bar>of_int (rne y) - y\<bar> \<le> 1 / 2"
proof -
  have "of_int \<lfloor>y\<rfloor> \<le> y" "y < of_int \<lfloor>y\<rfloor> + 1" by linarith+
  then show ?thesis
    by (auto simp: rne_def Let_def)
qed

lemma expo_bounds_pos:
  assumes "0 < x"
  shows "2 powi expo x \<le> x \<and> x < 2 powi (expo x + 1)"
proof (cases "1 \<le> x")
  case True
  define n where "n = \<lfloor>x\<rfloor>"
  have n: "0 < n" "of_int n \<le> x" "x < of_int n + 1" using True by (auto simp: n_def) linarith+
  have e: "expo x = bitlen n - 1" using True assms by (simp add: expo_def n_def)
  have b1: "1 \<le> bitlen n" using n(1) by (simp add: bitlen_alt_def)
  from bitlen_bounds [OF n(1)] have bb: "2 ^ nat (bitlen n - 1) \<le> n" "n < 2 ^ nat (bitlen n)" by auto
  have "(2::rat) powi (bitlen n - 1) = 2 ^ nat (bitlen n - 1)"
    using b1 by (simp add: power_int_def)
  also have "\<dots> = of_int (2 ^ nat (bitlen n - 1))" by simp
  also have "\<dots> \<le> of_int n" using bb(1) by (simp only: of_int_le_iff)
  finally have lo: "(2::rat) powi (bitlen n - 1) \<le> x" using n(2) by linarith
  have "n + 1 \<le> 2 ^ nat (bitlen n)" using bb(2) by simp
  then have "(of_int (n + 1) :: rat) \<le> of_int (2 ^ nat (bitlen n))" by (simp only: of_int_le_iff)
  also have "\<dots> = 2 powi (bitlen n)" using b1 by (simp add: power_int_def)
  finally have hi: "x < 2 powi (bitlen n)" using n(3) by simp
  show ?thesis using lo hi e by simp
next
  case False
  define y where "y = 1 / x"
  define m where "m = \<lceil>y\<rceil> - 1"
  have y: "1 < y" using False assms by (simp add: y_def)
  have m: "0 < m" "of_int m < y" "y \<le> of_int m + 1" using y by (auto simp: m_def) linarith+
  have e: "expo x = - bitlen m" using False assms by (simp add: expo_def m_def y_def)
  have b1: "1 \<le> bitlen m" using m(1) by (simp add: bitlen_alt_def)
  from bitlen_bounds [OF m(1)] have bb: "2 ^ nat (bitlen m - 1) \<le> m" "m < 2 ^ nat (bitlen m)" by auto
  have "m + 1 \<le> 2 ^ nat (bitlen m)" using bb(2) by simp
  then have "(of_int (m + 1) :: rat) \<le> of_int (2 ^ nat (bitlen m))" by (simp only: of_int_le_iff)
  then have yhi: "y \<le> 2 ^ nat (bitlen m)" using m(3) by simp
  have "(of_int (2 ^ nat (bitlen m - 1)) :: rat) \<le> of_int m" using bb(1) by (simp only: of_int_le_iff)
  then have "(2::rat) ^ nat (bitlen m - 1) \<le> of_int m" by simp
  then have ylo: "2 ^ nat (bitlen m - 1) < y" using m(2) by linarith
  have x: "x = 1 / y" using assms by (simp add: y_def)
  have lo: "2 powi (- bitlen m) \<le> x"
  proof -
    have "(2::rat) powi (- bitlen m) = 1 / 2 ^ nat (bitlen m)"
      using b1 by (simp add: power_int_def field_simps)
    also have "\<dots> \<le> 1 / y" using yhi y by (simp add: frac_le)
    finally show ?thesis using x by simp
  qed
  have hi: "x < 2 powi (- bitlen m + 1)"
  proof -
    have "x = 1 / y" by (rule x)
    also have "\<dots> < 1 / 2 ^ nat (bitlen m - 1)" using ylo by (simp add: frac_less2)
    also have "\<dots> = 2 powi (- bitlen m + 1)"
    proof -
      have "- bitlen m + 1 = - int (nat (bitlen m - 1))" using b1 by simp
      then show ?thesis by (simp only: power_int_minus power_int_of_nat) (simp add: field_simps)
    qed
    finally show ?thesis .
  qed
  show ?thesis using lo hi e by simp
qed

lemma expo_bounds:
  assumes "x \<noteq> 0"
  shows "2 powi expo x \<le> \<bar>x\<bar> \<and> \<bar>x\<bar> < 2 powi (expo x + 1)"
proof -
  have "expo \<bar>x\<bar> = expo x" by (simp add: expo_def)
  then show ?thesis using expo_bounds_pos [of "\<bar>x\<bar>"] assms by simp
qed

lemma powi_two_less: "(2::rat) powi a < 2 powi b \<longleftrightarrow> a < b"
proof
  assume l: "(2::rat) powi a < 2 powi b"
  show "a < b"
  proof (rule ccontr)
    assume "\<not> a < b"
    then have "b \<le> a" by simp
    then have "(2::rat) powi b \<le> 2 powi a" by (rule power_int_increasing) simp
    with l show False by simp
  qed
next
  assume "a < b"
  then show "(2::rat) powi a < 2 powi b" by (rule power_int_strict_increasing) simp
qed

lemma expo_unique:
  assumes "2 powi e \<le> \<bar>x\<bar>" "\<bar>x\<bar> < 2 powi (e + 1)"
  shows "expo x = e"
proof -
  have "(0::rat) < 2 powi e" by simp
  then have "0 < \<bar>x\<bar>" using assms(1) by linarith
  then have nz: "x \<noteq> 0" by simp
  from expo_bounds [OF nz] have b: "2 powi expo x \<le> \<bar>x\<bar>" "\<bar>x\<bar> < 2 powi (expo x + 1)" by auto
  have "(2::rat) powi e < 2 powi (expo x + 1)" using assms(1) b(2) by linarith
  then have 1: "e < expo x + 1" by (simp only: powi_two_less)
  have "(2::rat) powi expo x < 2 powi (e + 1)" using assms(2) b(1) by linarith
  then have 2: "expo x < e + 1" by (simp only: powi_two_less)
  from 1 2 show ?thesis by simp
qed

lemma fl_normal:
  assumes "2 powi e \<le> \<bar>x\<bar>" "\<bar>x\<bar> < 2 powi (e + 1)" "- 1022 \<le> e"
  shows "fl x = of_int (rne (x / 2 powi (e - 52))) * 2 powi (e - 52)"
  using expo_unique [OF assms(1,2)] assms(3) by (simp add: fl_def Let_def max_def)

text \<open>In the normal range the relative error of a rounding is at most \<open>2 powi (- 53)\<close>.\<close>

lemma fl_error:
  assumes "2 powi (- 1022) \<le> \<bar>x\<bar>"
  shows "\<bar>fl x - x\<bar> \<le> \<bar>x\<bar> / 2 ^ 53"
proof -
  have "(0::rat) < 2 powi (- 1022)" by simp
  then have "0 < \<bar>x\<bar>" using assms by linarith
  then have nz: "x \<noteq> 0" by simp
  define e where "e = expo x"
  from expo_bounds [OF nz] have b: "2 powi e \<le> \<bar>x\<bar>" "\<bar>x\<bar> < 2 powi (e + 1)" by (auto simp: e_def)
  have "(2::rat) powi (- 1022) < 2 powi (e + 1)" using assms b(2) by linarith
  then have "- 1022 < e + 1" by (simp only: powi_two_less)
  then have e: "- 1022 \<le> e" by simp
  define u :: rat where "u = 2 powi (e - 52)"
  have u: "0 < u" by (simp add: u_def)
  have f: "fl x = of_int (rne (x / u)) * u" using fl_normal [OF b e] by (simp add: u_def)
  have "fl x - x = (of_int (rne (x / u)) - x / u) * u"
    using u by (simp add: f field_simps)
  then have "\<bar>fl x - x\<bar> = \<bar>of_int (rne (x / u)) - x / u\<bar> * u"
    using u by (simp add: abs_mult)
  also have "\<dots> \<le> 1 / 2 * u" using rne_error [of "x / u"] u by (simp only: mult_right_mono less_imp_le)
  also have "\<dots> = 2 powi e / 2 ^ 53" by (simp add: u_def power_int_diff)
  also have "\<dots> \<le> \<bar>x\<bar> / 2 ^ 53" using b(1) by (simp add: divide_right_mono)
  finally show ?thesis .
qed

lemma fl_zero: "fl 0 = 0"
  by (simp add: fl_def rne_def)

lemma expo_zero: "expo 0 = 0"
  by (simp add: expo_def bitlen_alt_def)

lemma to_number_zero: "to_number 0 = Fin 0"
  by (simp add: to_number_def fl_zero expo_zero)

text \<open>No overflow when the exact result is at most \<open>2 ^ 1023\<close>.\<close>

lemma to_number_Fin:
  assumes "2 powi (- 1022) \<le> \<bar>x\<bar>" "\<bar>x\<bar> \<le> 2 ^ 1023"
  shows "to_number x = Fin (fl x)"
proof -
  have "(0::rat) < 2 powi (- 1022)" by simp
  then have pos: "0 < \<bar>x\<bar>" using assms(1) by linarith
  have "\<bar>fl x\<bar> \<le> \<bar>x\<bar> + \<bar>x\<bar> / 2 ^ 53" using fl_error [OF assms(1)] by linarith
  also have "\<dots> < \<bar>x\<bar> + \<bar>x\<bar>" using pos by (simp add: field_simps)
  also have "\<dots> \<le> 2 ^ 1023 + 2 ^ 1023" by (intro add_mono assms(2))
  also have "\<dots> = 2 powi 1024" by (simp add: power_int_def)
  finally have lt: "\<bar>fl x\<bar> < 2 powi 1024" .
  have "expo (fl x) < 1024"
  proof (cases "fl x = 0")
    case True
    then show ?thesis by (simp add: expo_zero)
  next
    case False
    from expo_bounds [OF False] have "2 powi expo (fl x) < (2::rat) powi 1024" using lt by linarith
    then show ?thesis by (simp only: powi_two_less)
  qed
  then show ?thesis by (simp add: to_number_def Let_def)
qed

lemma to_number_small:
  assumes "1 / 2 ^ 64 \<le> \<bar>x\<bar>" "\<bar>x\<bar> \<le> 2 ^ 64"
  shows "to_number x = Fin (fl x)"
proof (rule to_number_Fin)
  have "(2::rat) powi (- 1022) \<le> 2 powi (- 64)" by (rule power_int_increasing) simp_all
  also have "\<dots> = 1 / 2 ^ 64" by (simp add: power_int_def field_simps)
  finally show "2 powi (- 1022) \<le> \<bar>x\<bar>" using assms(1) by linarith
  have "(2::rat) ^ 64 \<le> 2 ^ 1023" by (rule power_increasing) simp_all
  then show "\<bar>x\<bar> \<le> 2 ^ 1023" using assms(2) by linarith
qed

text \<open>Positive values well inside the normal range: no overflow, and the error bound.\<close>

lemma fl_pos_bounds:
  assumes "1 / 2 ^ 64 \<le> x" "x \<le> 2 ^ 64"
  shows "to_number x = Fin (fl x)" "x - x / 2 ^ 53 \<le> fl x" "fl x \<le> x + x / 2 ^ 53"
proof -
  have ax: "\<bar>x\<bar> = x" using assms(1) by (simp add: abs_if not_less)
  show "to_number x = Fin (fl x)" using assms by (intro to_number_small) (simp_all add: ax)
  have "(2::rat) powi (- 1022) \<le> 2 powi (- 64)" by (rule power_int_increasing) simp_all
  also have "\<dots> = 1 / 2 ^ 64" by (simp add: power_int_def field_simps)
  finally have "2 powi (- 1022) \<le> \<bar>x\<bar>" using assms(1) ax by linarith
  from fl_error [OF this] show "x - x / 2 ^ 53 \<le> fl x" "fl x \<le> x + x / 2 ^ 53" 
    unfolding ax by linarith+
qed

section \<open>Properties of the decoder and of the categories\<close>

lemma flags_bit0: "(unat (f :: 8 word) AND 1 \<noteq> 0) = bit f 0"
proof -
  have "unat f AND 1 = unat (f AND 1)" by (simp add: unsigned_and_eq)
  moreover have "(unat (f AND 1) = 0) = (f AND 1 = 0)" by (simp add: unsigned_eq_0_iff)
  moreover have "(f AND 1 = 0) = even f" by (simp add: and_one_eq even_iff_mod_2_eq_zero)
  ultimately show ?thesis by (simp add: bit_0)
qed

lemma flags_mod2:
  "(unat (f :: 8 word) mod 2 = Suc 0) = bit f 0" "(unat (f :: 8 word) mod 2 = 0) = (\<not> bit f 0)"
proof -
  show a: "(unat f mod 2 = Suc 0) = bit f 0" using flags_bit0 [of f] by (simp add: and_one_eq)
  have "(unat f mod 2 = 0) = (unat f mod 2 \<noteq> Suc 0)" by arith
  then show "(unat f mod 2 = 0) = (\<not> bit f 0)" using a by simp
qed

lemma parse_frame:
  "parseScaleData (f # lo # hi # rest) =
     Inr (Some \<lparr>weight = js_div (Math_round (js_mul
                     (js_mul (Fin (of_nat (unat lo + 256 * unat hi)))
                        (lit (if bit f 0 then 1 / 100 else 5 / 1000)))
                     (Fin 100))) (Fin 100),
                 isStable = True,
                 unit = (if bit f 0 then ''lbs'' else ''kg'')\<rparr>)"
  by (simp add: parseScaleData_def byteLength_def getUint8_def getUint16_def Let_def flags_mod2)

lemma categories_distinct: "distinct [Podvaha, Normalna, Nadvaha, Obezita]"
  by (simp add: Podvaha_def Normalna_def Nadvaha_def Obezita_def)

section \<open>Unfolding the platform operations\<close>

lemmas platform_defs =
  gatt_connect_def getPrimaryService_def getCharacteristic_def startNotifications_def
  addEventListener_def stopNotifications_def disconnect_def issue_def resolve_service_def
  report_unhandled_def

lemmas uuid_defs =
  WEIGHT_SCALE_SERVICE_UUID_def BODY_COMPOSITION_SERVICE_UUID_def
  WEIGHT_MEASUREMENT_CHAR_UUID_def BODY_COMP_MEASUREMENT_CHAR_UUID_def

section \<open>The error of the scaled product\<close>

lemma lit_kg: "lit (5 / 1000) = Fin (5764607523034235 / 1152921504606846976)"
  by code_simp

lemma lit_lbs: "lit (1 / 100) = Fin (5764607523034235 / 576460752303423488)"
  by code_simp

lemma lit_kg_simp: "lit (1 / 200) = Fin (5764607523034235 / 1152921504606846976)"
  using lit_kg by simp

lemma floor_half: "\<lfloor>(1::rat) / 2\<rfloor> = 0"
  by (rule floor_unique) simp_all

lemma kg_product:
  assumes "1 \<le> a" "a \<le> 65535"
  shows "\<exists>y. js_mul (js_mul (Fin a) (lit (5 / 1000))) (Fin 100) = Fin y \<and> \<bar>y - a / 2\<bar> < 1 / 4"
proof -
  define x1 where "x1 = a * (5764607523034235 / 1152921504606846976)"
  have x1: "1 / 2 ^ 64 \<le> x1" "x1 \<le> 2 ^ 64" using assms by (simp_all add: x1_def)
  note b1 = fl_pos_bounds [OF x1]
  define x2 where "x2 = fl x1 * 100"
  have x2: "1 / 2 ^ 64 \<le> x2" "x2 \<le> 2 ^ 64" using b1(2,3) assms by (simp_all add: x2_def x1_def)
  note b2 = fl_pos_bounds [OF x2]
  have s1: "js_mul (Fin a) (lit (5 / 1000)) = Fin (fl x1)"
    unfolding lit_kg js_mul.simps x1_def [symmetric] by (rule b1(1))
  have s2: "js_mul (Fin (fl x1)) (Fin 100) = Fin (fl x2)"
    unfolding js_mul.simps x2_def [symmetric] by (rule b2(1))
  have "js_mul (js_mul (Fin a) (lit (5 / 1000))) (Fin 100) = Fin (fl x2)"
    by (simp only: s1 s2)
  moreover have "\<bar>fl x2 - a / 2\<bar> < 1 / 4"
  proof -
    have "fl x2 - a / 2 < 1 / 4" "- (1 / 4) < fl x2 - a / 2"
      using b1(2,3) b2(2,3) assms unfolding x2_def x1_def by (simp_all add: field_simps)
    then show ?thesis by linarith
  qed
  ultimately show ?thesis by blast
qed

lemma lbs_product:
  assumes "1 \<le> a" "a \<le> 65535"
  shows "\<exists>y. js_mul (js_mul (Fin a) (lit (1 / 100))) (Fin 100) = Fin y \<and> \<bar>y - a\<bar> < 1 / 4"
proof -
  define x1 where "x1 = a * (5764607523034235 / 576460752303423488)"
  have x1: "1 / 2 ^ 64 \<le> x1" "x1 \<le> 2 ^ 64" using assms by (simp_all add: x1_def)
  note b1 = fl_pos_bounds [OF x1]
  define x2 where "x2 = fl x1 * 100"
  have x2: "1 / 2 ^ 64 \<le> x2" "x2 \<le> 2 ^ 64" using b1(2,3) assms by (simp_all add: x2_def x1_def)
  note b2 = fl_pos_bounds [OF x2]
  have s1: "js_mul (Fin a) (lit (1 / 100)) = Fin (fl x1)"
    unfolding lit_lbs js_mul.simps x1_def [symmetric] by (rule b1(1))
  have s2: "js_mul (Fin (fl x1)) (Fin 100) = Fin (fl x2)"
    unfolding js_mul.simps x2_def [symmetric] by (rule b2(1))
  have "js_mul (js_mul (Fin a) (lit (1 / 100))) (Fin 100) = Fin (fl x2)"
    by (simp only: s1 s2)
  moreover have "\<bar>fl x2 - a\<bar> < 1 / 4"
  proof -
    have "fl x2 - a < 1 / 4" "- (1 / 4) < fl x2 - a"
      using b1(2,3) b2(2,3) assms unfolding x2_def x1_def by (simp_all add: field_simps)
    then show ?thesis by linarith
  qed
  ultimately show ?thesis by blast
qed

text \<open>
  The scaled weight before the division by 100: the nearest integer to the exact product,
  with no fixed direction when the exact product is halfway.
\<close>

lemma round_kg:
  assumes "raw \<le> 65535"
  shows "Math_round (js_mul (js_mul (Fin (of_nat raw)) (lit (5 / 1000))) (Fin 100)) = Fin (of_nat (raw div 2)) \<or>
         odd raw \<and> Math_round (js_mul (js_mul (Fin (of_nat raw)) (lit (5 / 1000))) (Fin 100)) = Fin (of_nat (raw div 2 + 1))"
proof (cases "raw = 0")
  case True
  then show ?thesis by (simp add: lit_kg_simp to_number_zero floor_half)
next
  case False
  then have a: "1 \<le> (of_nat raw :: rat)" "(of_nat raw :: rat) \<le> 65535" using assms by simp_all
  from kg_product [OF a] obtain y where
    y: "js_mul (js_mul (Fin (of_nat raw)) (lit (5 / 1000))) (Fin 100) = Fin y"
       "\<bar>y - of_nat raw / 2\<bar> < 1 / 4" by blast
  show ?thesis
  proof (cases "even raw")
    case True
    then obtain k where k: "raw = 2 * k" by (auto elim: evenE)
    have yk: "\<bar>y - of_nat k\<bar> < 1 / 4" using y(2) by (simp add: k)
    have b: "of_nat k \<le> y + 1 / 2" "y + 1 / 2 < of_nat k + 1" using yk by linarith+
    have "\<lfloor>y + 1 / 2\<rfloor> = int k" by (rule floor_unique) (simp_all add: b)
    then show ?thesis by (simp only: y(1) Math_round.simps) (simp add: k)
  next
    case False
    then obtain k where k: "raw = 2 * k + 1" by (auto elim: oddE)
    have "(of_nat raw :: rat) / 2 = of_nat k + 1 / 2" by (simp add: k add_divide_distrib)
    then have yk: "\<bar>y - (of_nat k + 1 / 2)\<bar> < 1 / 4" using y(2) by (simp only:)
    have b: "of_nat k \<le> y + 1 / 2" "y + 1 / 2 < of_nat k + 2" using yk by linarith+
    have l: "int k \<le> \<lfloor>y + 1 / 2\<rfloor>" by (simp add: le_floor_iff b)
    have u: "\<lfloor>y + 1 / 2\<rfloor> < int k + 2" by (simp add: floor_less_iff b)
    have "int k \<le> \<lfloor>y + 1 / 2\<rfloor>" "\<lfloor>y + 1 / 2\<rfloor> \<le> int k + 1"
      using l u by simp_all
    then have "\<lfloor>y + 1 / 2\<rfloor> = int k \<or> \<lfloor>y + 1 / 2\<rfloor> = int k + 1" by linarith
    then show ?thesis by (simp only: y(1) Math_round.simps) (auto simp: k)
  qed
qed

lemma round_lbs:
  assumes "raw \<le> 65535"
  shows "Math_round (js_mul (js_mul (Fin (of_nat raw)) (lit (1 / 100))) (Fin 100)) = Fin (of_nat raw)"
proof (cases "raw = 0")
  case True
  then show ?thesis by (simp add: lit_lbs to_number_zero floor_half)
next
  case False
  then have a: "1 \<le> (of_nat raw :: rat)" "(of_nat raw :: rat) \<le> 65535" using assms by simp_all
  from lbs_product [OF a] obtain y where
    y: "js_mul (js_mul (Fin (of_nat raw)) (lit (1 / 100))) (Fin 100) = Fin y"
       "\<bar>y - of_nat raw\<bar> < 1 / 4" by blast
  have b: "of_nat raw \<le> y + 1 / 2" "y + 1 / 2 < of_nat raw + 1" using y(2) by linarith+
  have "\<lfloor>y + 1 / 2\<rfloor> = int raw" by (rule floor_unique) (simp_all add: b)
  then show ?thesis by (simp only: y(1) Math_round.simps) simp
qed

lemma raw_bound: "unat (lo :: 8 word) + 256 * unat (hi :: 8 word) \<le> 65535"
proof -
  have "unat lo < 256" "unat hi < 256" using unsigned_less [of lo, where ?'a = nat] unsigned_less [of hi, where ?'a = nat] by simp_all
  then show ?thesis by simp
qed

lemma round_one_kg:
  "Math_round (js_mul (js_mul (Fin 1) (lit (5 / 1000))) (Fin 100)) = Fin 1"
  by code_simp

lemma scaled_round:
  assumes "raw \<le> 65535"
  shows "\<exists>r. Math_round (js_mul (js_mul (Fin (of_nat raw)) (lit (if b then 1 / 100 else 5 / 1000)))
                 (Fin 100)) = Fin (of_nat r) \<and>
             r \<le> 65535 \<and> (r = 0) = (raw = 0) \<and>
             (if b then r = raw else r = raw div 2 \<or> odd raw \<and> r = raw div 2 + 1)"
proof (cases b)
  case True
  then show ?thesis using round_lbs [OF assms] assms by auto
next
  case False
  show ?thesis
  proof (cases "raw = 1")
    case True
    with False show ?thesis using round_one_kg by (intro exI [of _ 1]) simp
  next
    case ne: False
    from round_kg [OF assms] show ?thesis
    proof
      assume "Math_round (js_mul (js_mul (Fin (of_nat raw)) (lit (5 / 1000))) (Fin 100)) =
        Fin (of_nat (raw div 2))"
      then show ?thesis using False ne assms by (intro exI [of _ "raw div 2"]) auto
    next
      assume "odd raw \<and> Math_round (js_mul (js_mul (Fin (of_nat raw)) (lit (5 / 1000))) (Fin 100)) =
        Fin (of_nat (raw div 2 + 1))"
      moreover from this have "0 < raw" by (auto elim: oddE)
      ultimately show ?thesis using False ne assms by (intro exI [of _ "raw div 2 + 1"]) auto
    qed
  qed
qed

lemma hundredth_positive:
  assumes "1 \<le> r" "r \<le> 65535"
  shows "\<exists>x. to_number (of_nat r / 100) = Fin x \<and> 0 < x"
proof -
  have x: "1 / 2 ^ 64 \<le> (of_nat r :: rat) / 100" "(of_nat r :: rat) / 100 \<le> 2 ^ 64"
    using assms by simp_all
  note b = fl_pos_bounds [OF x]
  have "0 < fl (of_nat r / 100)" using b(2) assms by (simp add: field_simps)
  then show ?thesis using b(1) by blast
qed

text \<open>The rounding of the specification on the exact products.\<close>

lemma rha_kg: "round_half_away_hundredths (of_nat raw / 200) = of_nat ((raw + 1) div 2) / 100"
proof -
  have "\<lfloor>(of_nat raw :: rat) / 2 + 1 / 2\<rfloor> = int ((raw + 1) div 2)"
  proof -
    have "(of_nat raw :: rat) / 2 + 1 / 2 = of_int (int (raw + 1)) / of_int 2" by (simp add: add_divide_distrib)
    then have "\<lfloor>(of_nat raw :: rat) / 2 + 1 / 2\<rfloor> = int (raw + 1) div 2"
      by (simp only: floor_divide_of_int_eq)
    then show ?thesis by (simp add: zdiv_int)
  qed
  then show ?thesis by (simp add: round_half_away_hundredths_def sgn_if)
qed

lemma rha_lbs: "round_half_away_hundredths (of_nat raw / 100) = of_nat raw / 100"
proof -
  have "\<lfloor>(of_nat raw :: rat) + 1 / 2\<rfloor> = int raw" by (rule floor_unique) simp_all
  then show ?thesis by (simp add: round_half_away_hundredths_def sgn_if)
qed

section \<open>The error of the body-mass index\<close>

text \<open>A rounding as a relative perturbation of the exact result.\<close>

lemma fl_rel:
  assumes "1 / 2 ^ 64 \<le> \<bar>x\<bar>" "\<bar>x\<bar> \<le> 2 ^ 64"
  shows "\<exists>d. to_number x = Fin (x * (1 + d)) \<and> \<bar>d\<bar> \<le> 1 / 2 ^ 53"
proof -
  have "(0::rat) < 1 / 2 ^ 64" by simp
  then have "0 < \<bar>x\<bar>" using assms(1) by linarith
  then have nz: "x \<noteq> 0" by simp
  have "(2::rat) powi (- 1022) \<le> 2 powi (- 64)" by (rule power_int_increasing) simp_all
  also have "\<dots> = 1 / 2 ^ 64" by (simp add: power_int_def field_simps)
  finally have "2 powi (- 1022) \<le> \<bar>x\<bar>" using assms(1) by linarith
  from fl_error [OF this] have e: "\<bar>fl x - x\<bar> \<le> \<bar>x\<bar> / 2 ^ 53" .
  define d where "d = (fl x - x) / x"
  have "x * (1 + d) = fl x" using nz by (simp add: d_def field_simps)
  then have "to_number x = Fin (x * (1 + d))" using to_number_small [OF assms] by (simp only:)
  moreover have "\<bar>d\<bar> \<le> 1 / 2 ^ 53"
  proof -
    have "\<bar>d\<bar> = \<bar>fl x - x\<bar> / \<bar>x\<bar>" by (simp add: d_def abs_divide)
    also have "\<dots> \<le> (\<bar>x\<bar> / 2 ^ 53) / \<bar>x\<bar>" using e by (rule divide_right_mono) simp
    also have "\<dots> = 1 / 2 ^ 53" using nz by simp
    finally show ?thesis .
  qed
  ultimately show ?thesis by blast
qed

lemma near_one:
  assumes "\<bar>d\<bar> \<le> 1 / 2 ^ 53"
  shows "1 - 1 / 2 ^ 53 \<le> 1 + d" "1 + d \<le> 1 + 1 / 2 ^ 53" "1 / 2 \<le> \<bar>1 + (d::rat)\<bar>" "\<bar>1 + d\<bar> \<le> 2"
  using assms by (simp_all add: abs_le_iff)

lemma abs_mult_bounds:
  fixes a b :: rat
  assumes "l1 \<le> \<bar>a\<bar>" "\<bar>a\<bar> \<le> u1" "l2 \<le> \<bar>b\<bar>" "\<bar>b\<bar> \<le> u2" "0 \<le> l1" "0 \<le> l2"
  shows "l1 * l2 \<le> \<bar>a * b\<bar>" "\<bar>a * b\<bar> \<le> u1 * u2"
proof -
  show "l1 * l2 \<le> \<bar>a * b\<bar>" unfolding abs_mult using assms by (intro mult_mono) simp_all
  show "\<bar>a * b\<bar> \<le> u1 * u2" unfolding abs_mult using assms by (intro mult_mono) simp_all
qed

lemma abs_div_bounds:
  fixes a b :: rat
  assumes "l1 \<le> \<bar>a\<bar>" "\<bar>a\<bar> \<le> u1" "l2 \<le> \<bar>b\<bar>" "\<bar>b\<bar> \<le> u2" "0 \<le> l1" "0 < l2"
  shows "l1 / u2 \<le> \<bar>a / b\<bar>" "\<bar>a / b\<bar> \<le> u1 / l2"
proof -
  show "l1 / u2 \<le> \<bar>a / b\<bar>" unfolding abs_divide using assms by (intro frac_le) simp_all
  show "\<bar>a / b\<bar> \<le> u1 / l2" unfolding abs_divide using assms by (intro frac_le) simp_all
qed


text \<open>Four roundings change the quotient by at most \<open>1 / 2 ^ 50\<close> of its value.\<close>

lemma ratio_near_one:
  fixes a1 a2 a3 a4 :: rat
  assumes "1 - 1 / 2 ^ 53 \<le> a1" "a1 \<le> 1 + 1 / 2 ^ 53"
    and "1 - 1 / 2 ^ 53 \<le> a2" "a2 \<le> 1 + 1 / 2 ^ 53"
    and "1 - 1 / 2 ^ 53 \<le> a3" "a3 \<le> 1 + 1 / 2 ^ 53"
    and "1 - 1 / 2 ^ 53 \<le> a4" "a4 \<le> 1 + 1 / 2 ^ 53"
  shows "\<bar>(a3 * a4) / (a1 * a1 * a2) - 1\<bar> \<le> 1 / 2 ^ 50"
proof -
  define L :: rat where "L = 1 - 1 / 2 ^ 53"
  define U :: rat where "U = 1 + 1 / 2 ^ 53"
  have L: "0 < L" "0 \<le> L" by (simp_all add: L_def)
  have U: "0 \<le> U" by (simp add: U_def)
  note a = assms [folded L_def U_def]
  have p: "0 \<le> a1" "0 \<le> a2" "0 \<le> a3" "0 \<le> a4" using a L by linarith+
  have N: "L * L \<le> a3 * a4" "a3 * a4 \<le> U * U"
    using a L p by (auto intro!: mult_mono)
  have D1: "L * L \<le> a1 * a1" "a1 * a1 \<le> U * U"
    using a L p by (auto intro!: mult_mono)
  have D: "L * L * L \<le> a1 * a1 * a2" "a1 * a1 * a2 \<le> U * U * U"
    using D1 a L p by (auto intro!: mult_mono)
  have Dpos: "0 < L * L * L" using L by simp
  then have Dpos': "0 < a1 * a1 * a2" using D(1) by linarith
  have "(a3 * a4) / (a1 * a1 * a2) \<le> (U * U) / (L * L * L)"
    using N D Dpos p by (intro frac_le) simp_all
  also have "\<dots> \<le> 1 + 1 / 2 ^ 50" by (simp add: L_def U_def)
  finally have hi: "(a3 * a4) / (a1 * a1 * a2) \<le> 1 + 1 / 2 ^ 50" .
  have "1 - 1 / 2 ^ 50 \<le> (L * L) / (U * U * U)" by (simp add: L_def U_def)
  also have "\<dots> \<le> (a3 * a4) / (a1 * a1 * a2)"
    using N D Dpos' L p by (intro frac_le) simp_all
  finally have lo: "1 - 1 / 2 ^ 50 \<le> (a3 * a4) / (a1 * a1 * a2)" .
  from lo hi show ?thesis by linarith
qed

lemma bmi_accuracy:
  assumes w: "1 / 1000 \<le> \<bar>w\<bar>" "\<bar>w\<bar> \<le> 10000" and h: "1 \<le> \<bar>h\<bar>" "\<bar>h\<bar> \<le> 10000"
  shows "\<exists>r. calculateBMI (Number (Fin w)) (Number (Fin h)) = lit (of_int r / 10) \<and>
    \<bar>of_int r - 10 * (w / (h / 100)\<^sup>2)\<bar> \<le> 1 / 2 + \<bar>10 * (w / (h / 100)\<^sup>2)\<bar> / 2 ^ 50"
proof -
  have nz: "w \<noteq> 0" "h \<noteq> 0" using w(1) h(1) by auto
  define x1 where "x1 = h / 100"
  have x1b: "1 / 100 \<le> \<bar>x1\<bar>" "\<bar>x1\<bar> \<le> 100" using h by (simp_all add: x1_def)
  have "\<exists>d. to_number x1 = Fin (x1 * (1 + d)) \<and> \<bar>d\<bar> \<le> 1 / 2 ^ 53"
    using x1b by (intro fl_rel) simp_all
  then obtain d1 where d1: "to_number x1 = Fin (x1 * (1 + d1))" "\<bar>d1\<bar> \<le> 1 / 2 ^ 53" by blast
  define m where "m = x1 * (1 + d1)"
  have mb: "1 / 200 \<le> \<bar>m\<bar>" "\<bar>m\<bar> \<le> 200"
    using abs_mult_bounds [OF x1b near_one(3,4) [OF d1(2)]] by (simp_all add: m_def)
  define x2 where "x2 = m * m"
  have x2b: "1 / 40000 \<le> \<bar>x2\<bar>" "\<bar>x2\<bar> \<le> 40000"
    using abs_mult_bounds [OF mb mb] by (simp_all add: x2_def)
  have "\<exists>d. to_number x2 = Fin (x2 * (1 + d)) \<and> \<bar>d\<bar> \<le> 1 / 2 ^ 53"
    using x2b by (intro fl_rel) simp_all
  then obtain d2 where d2: "to_number x2 = Fin (x2 * (1 + d2))" "\<bar>d2\<bar> \<le> 1 / 2 ^ 53" by blast
  define s where "s = x2 * (1 + d2)"
  have sb: "1 / 80000 \<le> \<bar>s\<bar>" "\<bar>s\<bar> \<le> 80000"
    using abs_mult_bounds [OF x2b near_one(3,4) [OF d2(2)]] by (simp_all add: s_def)
  have snz: "s \<noteq> 0" using sb(1) by auto
  define x3 where "x3 = w / s"
  have x3b: "1 / 80000000 \<le> \<bar>x3\<bar>" "\<bar>x3\<bar> \<le> 800000000"
    using abs_div_bounds [OF w sb] by (simp_all add: x3_def)
  have "\<exists>d. to_number x3 = Fin (x3 * (1 + d)) \<and> \<bar>d\<bar> \<le> 1 / 2 ^ 53"
    using x3b by (intro fl_rel) simp_all
  then obtain d3 where d3: "to_number x3 = Fin (x3 * (1 + d3))" "\<bar>d3\<bar> \<le> 1 / 2 ^ 53" by blast
  define q where "q = x3 * (1 + d3)"
  have qb: "1 / 160000000 \<le> \<bar>q\<bar>" "\<bar>q\<bar> \<le> 1600000000"
    using abs_mult_bounds [OF x3b near_one(3,4) [OF d3(2)]] by (simp_all add: q_def)
  define x4 where "x4 = q * 10"
  have x4b: "1 / 16000000 \<le> \<bar>x4\<bar>" "\<bar>x4\<bar> \<le> 16000000000"
    using qb by (simp_all add: x4_def)
  have "\<exists>d. to_number x4 = Fin (x4 * (1 + d)) \<and> \<bar>d\<bar> \<le> 1 / 2 ^ 53"
    using x4b by (intro fl_rel) simp_all
  then obtain d4 where d4: "to_number x4 = Fin (x4 * (1 + d4))" "\<bar>d4\<bar> \<le> 1 / 2 ^ 53" by blast
  define t where "t = x4 * (1 + d4)"
  define r where "r = \<lfloor>t + 1 / 2\<rfloor>"
  have s1: "js_div (Fin h) (Fin 100) = Fin m"
    by (simp add: d1(1) [unfolded x1_def] m_def x1_def)
  have s2: "js_mul (Fin m) (Fin m) = Fin s"
    by (simp add: d2(1) [unfolded x2_def] s_def x2_def)
  have s3: "js_div (Fin w) (Fin s) = Fin q"
    using snz by (simp add: d3(1) [unfolded x3_def] q_def x3_def)
  have s4: "js_mul (Fin q) (Fin 10) = Fin t"
    by (simp add: d4(1) [unfolded x4_def] t_def x4_def)
  have "calculateBMI (Number (Fin w)) (Number (Fin h)) =
      js_div (Math_round (js_mul (js_div (Fin w)
        (js_mul (js_div (Fin h) (Fin 100)) (js_div (Fin h) (Fin 100)))) (Fin 10))) (Fin 10)"
    using nz by (simp add: calculateBMI_def Let_def del: js_div.simps js_mul.simps)
  also have "\<dots> = js_div (Math_round (Fin t)) (Fin 10)" by (simp only: s1 s2 s3 s4)
  also have "\<dots> = lit (of_int r / 10)" by (simp add: r_def lit_def)
  finally have res: "calculateBMI (Number (Fin w)) (Number (Fin h)) = lit (of_int r / 10)" .
  define T where "T = 10 * (w / (h / 100)\<^sup>2)"
  define \<rho> where "\<rho> = ((1 + d3) * (1 + d4)) / ((1 + d1) * (1 + d1) * (1 + d2))"
  have pos: "1 + d1 \<noteq> 0" "1 + d2 \<noteq> 0" "1 + d3 \<noteq> 0" "1 + d4 \<noteq> 0"
    using near_one(3) [OF d1(2)] near_one(3) [OF d2(2)] near_one(3) [OF d3(2)]
      near_one(3) [OF d4(2)] by auto
  have tT: "t = T * \<rho>"
    using nz pos
    by (simp add: t_def x4_def q_def x3_def s_def x2_def m_def x1_def T_def \<rho>_def power2_eq_square
        field_simps)
  have "\<bar>\<rho> - 1\<bar> \<le> 1 / 2 ^ 50"
    unfolding \<rho>_def
    by (rule ratio_near_one [OF near_one(1,2) [OF d1(2)] near_one(1,2) [OF d2(2)]
          near_one(1,2) [OF d3(2)] near_one(1,2) [OF d4(2)]])
  then have "\<bar>T\<bar> * \<bar>\<rho> - 1\<bar> \<le> \<bar>T\<bar> * (1 / 2 ^ 50)" by (intro mult_left_mono) simp_all
  moreover have "t - T = T * (\<rho> - 1)" by (simp add: tT algebra_simps)
  ultimately have e: "\<bar>t - T\<bar> \<le> \<bar>T\<bar> / 2 ^ 50" by (simp add: abs_mult)
  have "\<bar>of_int r - t\<bar> \<le> 1 / 2" unfolding r_def by linarith
  with e have "\<bar>of_int r - T\<bar> \<le> 1 / 2 + \<bar>T\<bar> / 2 ^ 50" by linarith
  with res show ?thesis unfolding T_def by blast
qed


section \<open>The decoder on short frames\<close>

text \<open>
  C8. A frame of fewer than three bytes is rejected: the decoder returns \<open>null\<close>
  (\<open>Inr None\<close>), and it does not throw.
\<close>

theorem short_frame_rejected:
  "length data < 3 \<Longrightarrow> parseScaleData data = Inr None"
  by (simp add: parseScaleData_def byteLength_def)

theorem short_frame_rejected_witness:
  "length [0x01 :: 8 word, 0x58] < 3 \<and> parseScaleData [0x01, 0x58] = Inr None"
  using short_frame_rejected [of "[0x01, 0x58]"] by simp

section \<open>The units flag\<close>

text \<open>
  C5. The decoder multiplies the raw weight, the little-endian 16-bit value of bytes 1 and 2,
  by \<open>0.005\<close> when bit 0 of byte 0 is clear and by \<open>0.01\<close> when it is set, and
  names the unit \<open>kg\<close> or \<open>lbs\<close> accordingly. The frame
  \<open>[0x00, 0x58, 0x02]\<close> (raw 600) decodes to weight 3 in kg, the frame
  \<open>[0x01, 0x58, 0x02]\<close> to weight 6 in lbs.
\<close>

theorem unit_flag_multiplier:
  "parseScaleData (f # lo # hi # rest) =
     Inr (Some \<lparr>weight = js_div (Math_round (js_mul
                     (js_mul (Fin (of_nat (unat lo + 256 * unat hi)))
                        (lit (if bit f 0 then 1 / 100 else 5 / 1000)))
                     (Fin 100))) (Fin 100),
                 isStable = True,
                 unit = (if bit f 0 then ''lbs'' else ''kg'')\<rparr>) \<and>
   parseScaleData [0x00, 0x58, 0x02] =
     Inr (Some \<lparr>weight = Fin 3, isStable = True, unit = ''kg''\<rparr>) \<and>
   parseScaleData [0x01, 0x58, 0x02] =
     Inr (Some \<lparr>weight = Fin 6, isStable = True, unit = ''lbs''\<rparr>)"
proof (intro conjI)
  show "parseScaleData (f # lo # hi # rest) =
     Inr (Some \<lparr>weight = js_div (Math_round (js_mul
                     (js_mul (Fin (of_nat (unat lo + 256 * unat hi)))
                        (lit (if bit f 0 then 1 / 100 else 5 / 1000)))
                     (Fin 100))) (Fin 100),
                 isStable = True,
                 unit = (if bit f 0 then ''lbs'' else ''kg'')\<rparr>)"
    by (rule parse_frame)
  show "parseScaleData [0x00, 0x58, 0x02] =
     Inr (Some \<lparr>weight = Fin 3, isStable = True, unit = ''kg''\<rparr>)"
    by code_simp
  show "parseScaleData [0x01, 0x58, 0x02] =
     Inr (Some \<lparr>weight = Fin 6, isStable = True, unit = ''lbs''\<rparr>)"
    by code_simp
qed

section \<open>The categories\<close>

text \<open>
  C7. The thresholds of the category: a value below 18.5 is underweight (\<open>Podvaha\<close>),
  from 18.5 and below 25 normal (\<open>Normalna\<close>), from 25 and below 30 overweight
  (\<open>Nadvaha\<close>), from 30 on obese (\<open>Obezita\<close>); each boundary value belongs
  to the category above it, so 18.5 is normal, 25 overweight and 30 obese. The four
  results are pairwise different.
\<close>

theorem category_boundaries:
  "(x < 185 / 10 \<longrightarrow> getBMICategory (Fin x) = Podvaha) \<and>
   (185 / 10 \<le> x \<and> x < 25 \<longrightarrow> getBMICategory (Fin x) = Normalna) \<and>
   (25 \<le> x \<and> x < 30 \<longrightarrow> getBMICategory (Fin x) = Nadvaha) \<and>
   (30 \<le> x \<longrightarrow> getBMICategory (Fin x) = Obezita) \<and>
   getBMICategory NegInf = Podvaha \<and>
   getBMICategory PosInf = Obezita \<and>
   getBMICategory (lit (185 / 10)) = Normalna \<and>
   getBMICategory (lit (1849 / 100)) = Podvaha \<and>
   getBMICategory (lit 25) = Nadvaha \<and>
   getBMICategory (lit (2999 / 100)) = Nadvaha \<and>
   getBMICategory (lit 30) = Obezita \<and>
   distinct [Podvaha, Normalna, Nadvaha, Obezita]"
proof (intro conjI)
  show "getBMICategory (lit (185 / 10)) = Normalna" by code_simp
  show "getBMICategory (lit (1849 / 100)) = Podvaha" by code_simp
  show "getBMICategory (lit 25) = Nadvaha" by code_simp
  show "getBMICategory (lit (2999 / 100)) = Nadvaha" by code_simp
  show "getBMICategory (lit 30) = Obezita" by code_simp
  show "distinct [Podvaha, Normalna, Nadvaha, Obezita]" by (rule categories_distinct)
qed (simp_all add: getBMICategory_def)

text \<open>One value inside each of the four ranges.\<close>

theorem category_boundaries_witness:
  "(17::rat) < 185 / 10 \<and> getBMICategory (Fin 17) = Podvaha \<and>
   (185 / 10 \<le> (20::rat) \<and> (20::rat) < 25) \<and> getBMICategory (Fin 20) = Normalna \<and>
   ((25::rat) \<le> 27 \<and> (27::rat) < 30) \<and> getBMICategory (Fin 27) = Nadvaha \<and>
   (30::rat) \<le> 31 \<and> getBMICategory (Fin 31) = Obezita"
  using category_boundaries [of 17] category_boundaries [of 20]
    category_boundaries [of 27] category_boundaries [of 31]
  by simp

text \<open>
  C10. The category is defined on every Number, zero, negative values and NaN included,
  and is one of the four fixed results. The zero that \<open>calculateBMI\<close> returns
  for an absent input is classified as underweight, as a measured BMI of 15.4 is: the
  category does not tell an unknown BMI from an underweight one.
\<close>

theorem category_total:
  "getBMICategory b \<in> {Podvaha, Normalna, Nadvaha, Obezita} \<and>
   distinct [Podvaha, Normalna, Nadvaha, Obezita] \<and>
   getBMICategory (Fin 0) = Podvaha \<and>
   getBMICategory (Fin (- \<bar>x\<bar>)) = Podvaha \<and>
   getBMICategory NaN = Obezita \<and>
   calculateBMI Undefined h = Fin 0 \<and>
   calculateBMI w Undefined = Fin 0 \<and>
   getBMICategory (calculateBMI Undefined h) = Podvaha \<and>
   getBMICategory (calculateBMI w Undefined) = Podvaha \<and>
   calculateBMI (Number (Fin 50)) (Number (Fin 180)) = lit (154 / 10) \<and>
   getBMICategory (calculateBMI Undefined (Number (Fin 180))) =
     getBMICategory (calculateBMI (Number (Fin 50)) (Number (Fin 180)))"
proof (intro conjI)
  show "getBMICategory b \<in> {Podvaha, Normalna, Nadvaha, Obezita}"
    by (simp add: getBMICategory_def)
  show "distinct [Podvaha, Normalna, Nadvaha, Obezita]" by (rule categories_distinct)
  show "calculateBMI (Number (Fin 50)) (Number (Fin 180)) = lit (154 / 10)" by code_simp
  show "getBMICategory (calculateBMI Undefined (Number (Fin 180))) =
     getBMICategory (calculateBMI (Number (Fin 50)) (Number (Fin 180)))" by code_simp
qed (simp_all add: getBMICategory_def calculateBMI_def)

section \<open>Negotiation\<close>

text \<open>
  C1, as the specification states it, fails: on a peripheral that offers neither service,
  \<open>subscribeToWeight\<close> fails with the error of the second resolution while the
  connection opened by \<open>connect\<close> is still open, and no \<open>disconnect\<close>
  has been issued.
\<close>

theorem no_cleanup_counterexample:
  "fst (subscribeToWeight unsupported_device fresh_gatt) = Inl NotFoundError \<and>
   connected (snd (subscribeToWeight unsupported_device fresh_gatt)) \<and>
   Disconnect \<notin> set (calls (snd (subscribeToWeight unsupported_device fresh_gatt)))"
  by (simp add: subscribeToWeight_def platform_defs unsupported_device_def fresh_gatt_def uuid_defs)

text \<open>
  C1, amended. When the connection is accepted and the resolution of both services is
  rejected, \<open>subscribeToWeight\<close> fails with the error of the fallback resolution,
  passed on unchanged. It has issued \<open>connect\<close> and the two resolutions and
  nothing else: the connection stays open, it is not closed before the error reaches
  the caller.
\<close>

theorem both_services_fail:
  assumes "connect_rejects dev = None"
    and "service_rejects dev WEIGHT_SCALE_SERVICE_UUID = Some e1"
    and "service_rejects dev BODY_COMPOSITION_SERVICE_UUID = Some e2"
  shows "subscribeToWeight dev s =
     (Inl e2, s\<lparr>connected := True,
                 calls := calls s @ [Connect, GetPrimaryService WEIGHT_SCALE_SERVICE_UUID,
                                     GetPrimaryService BODY_COMPOSITION_SERVICE_UUID]\<rparr>)"
  using assms by (simp add: subscribeToWeight_def platform_defs)

text \<open>The peripheral without either service, on a fresh connection.\<close>

theorem both_services_fail_witness:
  "connect_rejects unsupported_device = None \<and>
   service_rejects unsupported_device WEIGHT_SCALE_SERVICE_UUID = Some NotFoundError \<and>
   service_rejects unsupported_device BODY_COMPOSITION_SERVICE_UUID = Some NotFoundError \<and>
   subscribeToWeight unsupported_device fresh_gatt =
     (Inl NotFoundError,
      \<lparr>connected = True, notifying = [], listeners = [],
       calls = [Connect, GetPrimaryService WEIGHT_SCALE_SERVICE_UUID,
                GetPrimaryService BODY_COMPOSITION_SERVICE_UUID],
       unhandled_rejections = []\<rparr>)"
proof -
  have 1: "connect_rejects unsupported_device = None" by (simp add: unsupported_device_def)
  have 2: "service_rejects unsupported_device WEIGHT_SCALE_SERVICE_UUID = Some NotFoundError"
    by (simp add: unsupported_device_def)
  have 3: "service_rejects unsupported_device BODY_COMPOSITION_SERVICE_UUID = Some NotFoundError"
    by (simp add: unsupported_device_def)
  show ?thesis using 1 2 3 both_services_fail [OF 1 2 3, of fresh_gatt]
    by (simp add: fresh_gatt_def)
qed

text \<open>
  C4. After a successful \<open>connect\<close> the first call is always the resolution of the
  Weight Scale service \<open>0x181d\<close>. A subscription is bound to the Weight Measurement
  characteristic of the Weight Scale service when that service resolved, and to the Body
  Composition Measurement characteristic \<open>0x2a9c\<close> of the Body Composition service
  \<open>0x181b\<close> when it did not: the pairs are never mixed. When the primary
  resolution fails and the secondary succeeds, the only characteristic ever requested is
  the secondary pair, and the subscription exists exactly when that characteristic
  resolves and its notifications start.
\<close>

theorem fallback_binds_secondary_pair:
  "(connect_rejects dev = None \<longrightarrow>
      take 2 (drop (length (calls s)) (calls (snd (subscribeToWeight dev s)))) =
        [Connect, GetPrimaryService WEIGHT_SCALE_SERVICE_UUID]) \<and>
   (\<forall>sub. fst (subscribeToWeight dev s) = Inr sub \<longrightarrow>
      sub_characteristic sub = (WEIGHT_SCALE_SERVICE_UUID, WEIGHT_MEASUREMENT_CHAR_UUID) \<and>
        service_rejects dev WEIGHT_SCALE_SERVICE_UUID = None \<or>
      sub_characteristic sub = (BODY_COMPOSITION_SERVICE_UUID, BODY_COMP_MEASUREMENT_CHAR_UUID) \<and>
        service_rejects dev WEIGHT_SCALE_SERVICE_UUID \<noteq> None) \<and>
   (connect_rejects dev = None \<and> service_rejects dev WEIGHT_SCALE_SERVICE_UUID \<noteq> None \<and>
    service_rejects dev BODY_COMPOSITION_SERVICE_UUID = None \<longrightarrow>
      fst (subscribeToWeight dev s) =
        (case characteristic_rejects dev BODY_COMPOSITION_SERVICE_UUID
                BODY_COMP_MEASUREMENT_CHAR_UUID of
           Some e \<Rightarrow> Inl e
         | None \<Rightarrow>
             (case start_rejects dev BODY_COMPOSITION_SERVICE_UUID
                     BODY_COMP_MEASUREMENT_CHAR_UUID of
                Some e \<Rightarrow> Inl e
              | None \<Rightarrow> Inr \<lparr>sub_characteristic =
                  (BODY_COMPOSITION_SERVICE_UUID, BODY_COMP_MEASUREMENT_CHAR_UUID)\<rparr>)) \<and>
      drop (length (calls s)) (calls (snd (subscribeToWeight dev s))) =
        [Connect, GetPrimaryService WEIGHT_SCALE_SERVICE_UUID,
         GetPrimaryService BODY_COMPOSITION_SERVICE_UUID,
         GetCharacteristic BODY_COMPOSITION_SERVICE_UUID BODY_COMP_MEASUREMENT_CHAR_UUID] @
        (if characteristic_rejects dev BODY_COMPOSITION_SERVICE_UUID
              BODY_COMP_MEASUREMENT_CHAR_UUID = None
         then StartNotifications (BODY_COMPOSITION_SERVICE_UUID, BODY_COMP_MEASUREMENT_CHAR_UUID) #
           (if start_rejects dev BODY_COMPOSITION_SERVICE_UUID
                 BODY_COMP_MEASUREMENT_CHAR_UUID = None
            then [AddEventListener (BODY_COMPOSITION_SERVICE_UUID, BODY_COMP_MEASUREMENT_CHAR_UUID)]
            else [])
         else []))"
  by (auto simp: subscribeToWeight_def platform_defs split: option.splits)

text \<open>The scale that offers the Body Composition service only.\<close>

theorem fallback_binds_secondary_pair_witness:
  "connect_rejects body_composition_scale = None \<and>
   service_rejects body_composition_scale WEIGHT_SCALE_SERVICE_UUID \<noteq> None \<and>
   service_rejects body_composition_scale BODY_COMPOSITION_SERVICE_UUID = None \<and>
   fst (subscribeToWeight body_composition_scale fresh_gatt) =
     Inr \<lparr>sub_characteristic =
       (BODY_COMPOSITION_SERVICE_UUID, BODY_COMP_MEASUREMENT_CHAR_UUID)\<rparr> \<and>
   calls (snd (subscribeToWeight body_composition_scale fresh_gatt)) =
     [Connect, GetPrimaryService WEIGHT_SCALE_SERVICE_UUID,
      GetPrimaryService BODY_COMPOSITION_SERVICE_UUID,
      GetCharacteristic BODY_COMPOSITION_SERVICE_UUID BODY_COMP_MEASUREMENT_CHAR_UUID,
      StartNotifications (BODY_COMPOSITION_SERVICE_UUID, BODY_COMP_MEASUREMENT_CHAR_UUID),
      AddEventListener (BODY_COMPOSITION_SERVICE_UUID, BODY_COMP_MEASUREMENT_CHAR_UUID)]"
proof -
  have 1: "connect_rejects body_composition_scale = None"
    by (simp add: body_composition_scale_def)
  have 2: "service_rejects body_composition_scale WEIGHT_SCALE_SERVICE_UUID \<noteq> None"
    by (simp add: body_composition_scale_def uuid_defs)
  have 3: "service_rejects body_composition_scale BODY_COMPOSITION_SERVICE_UUID = None"
    by (simp add: body_composition_scale_def)
  have 4: "characteristic_rejects body_composition_scale BODY_COMPOSITION_SERVICE_UUID
      BODY_COMP_MEASUREMENT_CHAR_UUID = None"
    by (simp add: body_composition_scale_def)
  have 5: "start_rejects body_composition_scale BODY_COMPOSITION_SERVICE_UUID
      BODY_COMP_MEASUREMENT_CHAR_UUID = None"
    by (simp add: body_composition_scale_def)
  have 6: "calls fresh_gatt = []" by (simp add: fresh_gatt_def)
  show ?thesis
    using fallback_binds_secondary_pair [of body_composition_scale fresh_gatt] 1 2 3 4 5 6
    by simp
qed

section \<open>Teardown\<close>




section \<open>The sign of the decoded weight\<close>

text \<open>
  C3, as the specification states it, fails: the frame of three zero bytes is not
  rejected, it decodes to a measurement of weight 0, and \<open>0 < 0\<close> is false.
\<close>

theorem zero_weight_decoded:
  "parseScaleData [0x00, 0x00, 0x00] =
     Inr (Some \<lparr>weight = Fin 0, isStable = True, unit = ''kg''\<rparr>) \<and>
   \<not> js_lt (Fin 0) (Fin 0)"
proof
  show "parseScaleData [0x00, 0x00, 0x00] =
     Inr (Some \<lparr>weight = Fin 0, isStable = True, unit = ''kg''\<rparr>)" by code_simp
  show "\<not> js_lt (Fin 0) (Fin 0)" by simp
qed

text \<open>
  C3, amended. Every frame of three or more bytes decodes to a measurement whose weight
  is a finite Number greater than or equal to 0; the weight is 0 exactly when the raw
  weight is 0, that is when bytes 1 and 2 are both zero.
\<close>

theorem weight_sign:
  "\<exists>m x. parseScaleData (f # lo # hi # rest) = Inr (Some m) \<and> weight m = Fin x \<and> 0 \<le> x \<and>
     (x = 0) = (lo = 0 \<and> hi = 0)"
proof -
  define raw where "raw = unat lo + 256 * unat hi"
  have "raw \<le> 65535" unfolding raw_def by (rule raw_bound)
  from scaled_round [OF this, of "bit f 0"] obtain r where
    "Math_round (js_mul (js_mul (Fin (of_nat raw))
          (lit (if bit f 0 then 1 / 100 else 5 / 1000))) (Fin 100)) = Fin (of_nat r) \<and>
       r \<le> 65535 \<and> (r = 0) = (raw = 0) \<and>
       (if bit f 0 then r = raw else r = raw div 2 \<or> odd raw \<and> r = raw div 2 + 1)" ..
  note c = this
  note r = c [THEN conjunct1] c [THEN conjunct2, THEN conjunct1]
    c [THEN conjunct2, THEN conjunct2, THEN conjunct1]
  have w: "\<exists>x. js_div (Fin (of_nat r)) (Fin 100) = Fin x \<and> 0 \<le> x \<and> (x = 0) = (r = 0)"
  proof (cases "r = 0")
    case True
    then show ?thesis by (simp add: to_number_zero)
  next
    case False
    then have "1 \<le> r" by simp
    from hundredth_positive [OF this r(2)] show ?thesis using False by auto
  qed
  from w obtain x where x: "js_div (Fin (of_nat r)) (Fin 100) = Fin x" "0 \<le> x" "(x = 0) = (r = 0)"
    by blast
  have "(x = 0) = (lo = 0 \<and> hi = 0)" using x(3) r(3) by (simp add: raw_def unsigned_eq_0_iff)
  then show ?thesis
    unfolding parse_frame raw_def [symmetric] r(1) x(1) using x(2) by simp
qed

section \<open>The rounding of the decoded weight\<close>

text \<open>
  C6, as the specification states it, fails. The frame \<open>[0x00, 0x1D, 0x00]\<close> has
  raw weight 29; the exact product \<open>29 \<times> 0.005 = 0.145\<close> rounds half away
  from zero to 0.15, and the decoder returns 0.14. Reading the product as the double
  that the multiplication returns does not help: for the frame \<open>[0x00, 0x03, 0x00]\<close>
  that double lies below 0.015, it rounds to 0.01, and the decoder returns 0.02.
\<close>

theorem rounding_not_half_away:
  "parseScaleData [0x00, 0x1D, 0x00] =
     Inr (Some \<lparr>weight = lit (14 / 100), isStable = True, unit = ''kg''\<rparr>) \<and>
   round_half_away_hundredths (29 * (5 / 1000)) = 15 / 100 \<and>
   lit (14 / 100) \<noteq> lit (15 / 100) \<and>
   parseScaleData [0x00, 0x03, 0x00] =
     Inr (Some \<lparr>weight = lit (2 / 100), isStable = True, unit = ''kg''\<rparr>) \<and>
   js_mul (Fin 3) (lit (5 / 1000)) = Fin (1080863910568919 / 72057594037927936) \<and>
   round_half_away_hundredths (1080863910568919 / 72057594037927936) = 1 / 100 \<and>
   lit (2 / 100) \<noteq> lit (1 / 100)"
proof (intro conjI)
  show "parseScaleData [0x00, 0x1D, 0x00] =
     Inr (Some \<lparr>weight = lit (14 / 100), isStable = True, unit = ''kg''\<rparr>)" by code_simp
  show "round_half_away_hundredths (29 * (5 / 1000)) = 15 / 100" by code_simp
  show "lit (14 / 100) \<noteq> lit (15 / 100)" by code_simp
  show "parseScaleData [0x00, 0x03, 0x00] =
     Inr (Some \<lparr>weight = lit (2 / 100), isStable = True, unit = ''kg''\<rparr>)" by code_simp
  show "js_mul (Fin 3) (lit (5 / 1000)) = Fin (1080863910568919 / 72057594037927936)" by code_simp
  show "round_half_away_hundredths (1080863910568919 / 72057594037927936) = 1 / 100" by code_simp
  show "lit (2 / 100) \<noteq> lit (1 / 100)" by code_simp
qed

text \<open>
  C6, amended. The decoded weight is the double nearest to a hundredth. That hundredth is
  the exact product of the raw weight and the multiplier (0.01 or 0.005) rounded half
  away from zero, except that for an odd raw weight in kilograms, where the exact product
  lies halfway between two hundredths, it may also be the hundredth below.
\<close>

theorem weight_rounding:
  "\<exists>m. parseScaleData (f # lo # hi # rest) = Inr (Some m) \<and>
     (weight m = lit (round_half_away_hundredths
                   (of_nat (unat lo + 256 * unat hi) * (if bit f 0 then 1 / 100 else 5 / 1000))) \<or>
      \<not> bit f 0 \<and> odd (unat lo + 256 * unat hi) \<and>
      weight m = lit (round_half_away_hundredths
                   (of_nat (unat lo + 256 * unat hi) * (5 / 1000)) - 1 / 100))"
proof -
  define raw where "raw = unat lo + 256 * unat hi"
  have "raw \<le> 65535" unfolding raw_def by (rule raw_bound)
  from scaled_round [OF this, of "bit f 0"] obtain r where
    "Math_round (js_mul (js_mul (Fin (of_nat raw))
          (lit (if bit f 0 then 1 / 100 else 5 / 1000))) (Fin 100)) = Fin (of_nat r) \<and>
       r \<le> 65535 \<and> (r = 0) = (raw = 0) \<and>
       (if bit f 0 then r = raw else r = raw div 2 \<or> odd raw \<and> r = raw div 2 + 1)" ..
  note c = this
  note r = c [THEN conjunct1] c [THEN conjunct2, THEN conjunct2, THEN conjunct2]
  have w: "js_div (Fin (of_nat r)) (Fin 100) = lit (of_nat r / 100)" by (simp add: lit_def)
  define P where "P = round_half_away_hundredths
    (of_nat raw * (if bit f 0 then 1 / 100 else 5 / 1000))"
  define Q where "Q = round_half_away_hundredths (of_nat raw * (5 / 1000))"
  have "of_nat r / 100 = P \<or> \<not> bit f 0 \<and> odd raw \<and> of_nat r / 100 = Q - 1 / 100"
  proof (cases "bit f 0")
    case True
    then have "P = of_nat raw / 100" by (simp add: P_def rha_lbs)
    moreover have "r = raw" using r(2) True by simp
    ultimately show ?thesis by simp
  next
    case False
    then have P: "P = of_nat ((raw + 1) div 2) / 100" by (simp add: P_def rha_kg)
    have Q: "Q = of_nat ((raw + 1) div 2) / 100" by (simp add: Q_def rha_kg)
    have "r = raw div 2 \<or> odd raw \<and> r = raw div 2 + 1" using r(2) False by simp
    then show ?thesis
    proof
      assume a: "r = raw div 2"
      show ?thesis
      proof (cases "even raw")
        case True
        then have "(raw + 1) div 2 = raw div 2" by presburger
        then have "of_nat r / 100 = P" by (simp only: P a)
        then show ?thesis ..
      next
        case odd: False
        then have "(raw + 1) div 2 = raw div 2 + 1" by presburger
        then have "Q = (of_nat (raw div 2) + 1) / 100" by (simp only: Q) simp
        then have "of_nat r / 100 = Q - 1 / 100" by (simp add: a add_divide_distrib)
        then show ?thesis using False odd by simp
      qed
    next
      assume a: "odd raw \<and> r = raw div 2 + 1"
      then have "(raw + 1) div 2 = raw div 2 + 1" by presburger
      then have "of_nat r / 100 = P" using a by (simp only: P)
      then show ?thesis ..
    qed
  qed
  then have "lit (of_nat r / 100) = lit P \<or>
      \<not> bit f 0 \<and> odd raw \<and> lit (of_nat r / 100) = lit (Q - 1 / 100)"
  proof
    assume "of_nat r / 100 = P"
    then have "lit (of_nat r / 100) = lit P" by (rule arg_cong)
    then show ?thesis ..
  next
    assume e: "\<not> bit f 0 \<and> odd raw \<and> of_nat r / 100 = Q - 1 / 100"
    have "lit (of_nat r / 100) = lit (Q - 1 / 100)"
      using e [THEN conjunct2, THEN conjunct2] by (rule arg_cong)
    with e show ?thesis by blast
  qed
  then show ?thesis
    unfolding parse_frame raw_def [symmetric] r(1) w P_def Q_def by simp
qed

text \<open>The frame of raw weight 29, where the lower hundredth is taken.\<close>

theorem weight_rounding_witness:
  "\<exists>m. parseScaleData [0x00, 0x1D, 0x00] = Inr (Some m) \<and>
     (weight m = lit (round_half_away_hundredths
                   (of_nat (unat (0x1D :: 8 word) + 256 * unat (0x00 :: 8 word)) *
                    (if bit (0x00 :: 8 word) 0 then 1 / 100 else 5 / 1000))) \<or>
      \<not> bit (0x00 :: 8 word) 0 \<and> odd (unat (0x1D :: 8 word) + 256 * unat (0x00 :: 8 word)) \<and>
      weight m = lit (round_half_away_hundredths
                   (of_nat (unat (0x1D :: 8 word) + 256 * unat (0x00 :: 8 word)) * (5 / 1000)) - 1 / 100))"
  by (rule weight_rounding [of "0x00" "0x1D" "0x00" "[]"])

section \<open>The body-mass index\<close>

text \<open>
  C2, as the specification states it, fails: a strictly negative weight is not answered
  by 0. \<open>calculateBMI(-70, 175)\<close> is \<open>-22.9\<close>.
\<close>

theorem negative_weight_bmi:
  "calculateBMI (Number (Fin (- 70))) (Number (Fin 175)) = lit (- 229 / 10) \<and>
   lit (- 229 / 10) \<noteq> Fin 0"
proof
  show "calculateBMI (Number (Fin (- 70))) (Number (Fin 175)) = lit (- 229 / 10)" by code_simp
  show "lit (- 229 / 10) \<noteq> Fin 0" by code_simp
qed

text \<open>
  C2, amended. \<open>calculateBMI\<close> returns 0 when either argument is absent
  (\<open>undefined\<close>, \<open>null\<close>), NaN or zero. Other values are not taken for
  unknown, strictly negative ones included: for a weight of magnitude between 0.001 and
  10000 and a height of magnitude between 1 and 10000 the result is the double nearest to
  \<open>r / 10\<close>, where the integer \<open>r\<close> is ten times the exact quotient
  \<open>weight / (height / 100)\<^sup>2\<close> rounded to the nearest integer, up to the
  error of the four floating-point operations, which is at most \<open>1 / 2 ^ 50\<close> of
  the value. In particular \<open>calculateBMI(70, 175) = 22.9\<close>,
  \<open>calculateBMI(-70, 175) = -22.9\<close>, \<open>calculateBMI(0, 175) = 0\<close> and
  \<open>calculateBMI(70, 0) = 0\<close>.
\<close>

theorem bmi_value:
  "(1 / 1000 \<le> \<bar>w\<bar> \<and> \<bar>w\<bar> \<le> 10000 \<and> 1 \<le> \<bar>h\<bar> \<and> \<bar>h\<bar> \<le> 10000 \<longrightarrow>
      (\<exists>r. calculateBMI (Number (Fin w)) (Number (Fin h)) = lit (of_int r / 10) \<and>
         \<bar>of_int r - 10 * (w / (h / 100)\<^sup>2)\<bar>
           \<le> 1 / 2 + \<bar>10 * (w / (h / 100)\<^sup>2)\<bar> / 2 ^ 50)) \<and>
   calculateBMI Undefined v = Fin 0 \<and>
   calculateBMI Null v = Fin 0 \<and>
   calculateBMI (Number NaN) v = Fin 0 \<and>
   calculateBMI (Number (Fin 0)) v = Fin 0 \<and>
   calculateBMI v Undefined = Fin 0 \<and>
   calculateBMI v Null = Fin 0 \<and>
   calculateBMI v (Number NaN) = Fin 0 \<and>
   calculateBMI v (Number (Fin 0)) = Fin 0 \<and>
   calculateBMI (Number (Fin 70)) (Number (Fin 175)) = lit (229 / 10) \<and>
   calculateBMI (Number (Fin (- 70))) (Number (Fin 175)) = lit (- 229 / 10) \<and>
   calculateBMI (Number (Fin 0)) (Number (Fin 175)) = Fin 0 \<and>
   calculateBMI (Number (Fin 70)) (Number (Fin 0)) = Fin 0"
proof (intro conjI impI)
  assume "1 / 1000 \<le> \<bar>w\<bar> \<and> \<bar>w\<bar> \<le> 10000 \<and> 1 \<le> \<bar>h\<bar> \<and> \<bar>h\<bar> \<le> 10000"
  then show "\<exists>r. calculateBMI (Number (Fin w)) (Number (Fin h)) = lit (of_int r / 10) \<and>
         \<bar>of_int r - 10 * (w / (h / 100)\<^sup>2)\<bar>
           \<le> 1 / 2 + \<bar>10 * (w / (h / 100)\<^sup>2)\<bar> / 2 ^ 50"
    by (intro bmi_accuracy) simp_all
next
  show "calculateBMI (Number (Fin 70)) (Number (Fin 175)) = lit (229 / 10)" by code_simp
next
  show "calculateBMI (Number (Fin (- 70))) (Number (Fin 175)) = lit (- 229 / 10)" by code_simp
qed (simp_all add: calculateBMI_def)

text \<open>The weight \<open>-70\<close> and the height 175 lie in the range.\<close>

theorem bmi_value_witness:
  "(1 / 1000 \<le> \<bar>- 70 :: rat\<bar> \<and> \<bar>- 70 :: rat\<bar> \<le> 10000 \<and> 1 \<le> \<bar>175 :: rat\<bar> \<and>
      \<bar>175 :: rat\<bar> \<le> 10000) \<and>
   (\<exists>r. calculateBMI (Number (Fin (- 70))) (Number (Fin 175)) = lit (of_int r / 10) \<and>
      \<bar>of_int r - 10 * (- 70 / (175 / 100)\<^sup>2) :: rat\<bar>
        \<le> 1 / 2 + \<bar>10 * (- 70 / (175 / 100)\<^sup>2)\<bar> / 2 ^ 50)"
proof
  show hyp: "1 / 1000 \<le> \<bar>- 70 :: rat\<bar> \<and> \<bar>- 70 :: rat\<bar> \<le> 10000 \<and> 1 \<le> \<bar>175 :: rat\<bar> \<and>
      \<bar>175 :: rat\<bar> \<le> 10000" by simp
  show "\<exists>r. calculateBMI (Number (Fin (- 70))) (Number (Fin 175)) = lit (of_int r / 10) \<and>
      \<bar>of_int r - 10 * (- 70 / (175 / 100)\<^sup>2) :: rat\<bar>
        \<le> 1 / 2 + \<bar>10 * (- 70 / (175 / 100)\<^sup>2)\<bar> / 2 ^ 50"
    by (rule bmi_value [where w = "- 70" and h = 175, THEN conjunct1, THEN mp, OF hyp])
qed


end
